theory Spec2Isabelle
  imports Main "HOL-Library.Word" "HOL-Library.Sublist"
begin

section \<open>APRS-IS client of APRS_SAGEBOT: data model\<close>

text \<open>
  The embedding follows the newest revision of \<^verbatim>\<open>aprsService.cpp\<close> (the one with
  \<^verbatim>\<open>updateAPRS\<close>, \<^verbatim>\<open>verifyLogonStatus\<close> and \<^verbatim>\<open>readAPRSPacket\<close>). Arduino
  \<^verbatim>\<open>String\<close> values are \<^typ>\<open>string\<close>; \<^verbatim>\<open>unsigned long\<close> millisecond stamps are
  \<^typ>\<open>32 word\<close>, so that \<^verbatim>\<open>millis() + APRS_TIMEOUT\<close> and
  \<^verbatim>\<open>millis() - timeoutStamp\<close> wrap as on the device.
\<close>

datatype APRS_State = APRS_DISCONNECTED | APRS_CONNECTED | APRS_LOGGED_IN | APRS_VERIFIED

text \<open>
  The constants of \<^verbatim>\<open>credentials.h\<close>. \<^verbatim>\<open>APRS_SOFTWARE_VERS\<close> is the macro for
  \<^verbatim>\<open>FW_VERSION\<close>. Their values are configuration, so they are a parameter of every
  function that reads them.
\<close>

record credentials =
  CALLSIGN :: string
  APRS_PASSCODE :: string
  APRS_SOFTWARE_NAME :: string
  APRS_SOFTWARE_VERS :: string
  APRS_FILTER :: string

text \<open>
  The mutable state the service works on: the \<^verbatim>\<open>WiFiClient client\<close>, the clock, the
  globals and the function-local statics.
  \<^item> \<open>clientConnected\<close> is what \<^verbatim>\<open>client.connected()\<close> reports;
  \<^item> \<open>rx\<close> holds the bytes the transport has for the reader, oldest first
    (\<^verbatim>\<open>client.available()\<close> is non-zero exactly when it is non-empty);
  \<^item> \<open>sent\<close> lists the arguments of the calls of \<^verbatim>\<open>client.println\<close>, oldest first;
  \<^item> \<open>connectOk\<close> tells whether \<^verbatim>\<open>client.connect(APRS_SERVER, APRS_PORT)\<close> succeeds;
  \<^item> \<open>clock\<close> is the value of \<^verbatim>\<open>millis()\<close>, \<open>yieldMs\<close> the time one \<^verbatim>\<open>yield()\<close>
    of the verification loop lets pass;
  \<^item> \<open>timeoutStamp\<close> is the static of \<^verbatim>\<open>readAPRSPacket\<close>, \<open>lastDay\<close> the static of
    \<^verbatim>\<open>processBulletins\<close>.
  Time passes in \<^verbatim>\<open>yield()\<close> only, and no bytes arrive while a function runs: what
  the server sends is in \<open>rx\<close> from the start. Output of \<^verbatim>\<open>DEBUG_PRINTLN\<close> and
  \<^verbatim>\<open>Serial\<close> goes to the serial console, not to the transport, and is left out.
\<close>

record world =
  clientConnected :: bool
  rx :: string
  sent :: "string list"
  connectOk :: bool
  clock :: "32 word"
  yieldMs :: "32 word"
  timeoutStamp :: "32 word"
  aprsState :: APRS_State
  amBulletinSent :: bool
  pmBulletinSent :: bool
  lastDay :: int

definition APRS_TIMEOUT :: "32 word" where
  "APRS_TIMEOUT = 2000"

definition TIMEOUT_MS :: "32 word" where
  "TIMEOUT_MS = 1500"

definition APRS_ID_MESSAGE :: char where
  "APRS_ID_MESSAGE = CHR '':''"

definition LF :: char where
  "LF = CHR 0x0A"

definition NUL :: char where
  "NUL = CHR 0x00"

subsection \<open>Arduino String operations\<close>

text \<open>
  A \<^verbatim>\<open>String\<close> keeps its characters in a C buffer and its length beside it. A byte
  read from the transport is appended whatever its value, so a received line can hold
  NUL bytes, which \<^verbatim>\<open>length()\<close> counts; the C string functions see the buffer up to
  the first of them.
\<close>

definition c_str :: "string \<Rightarrow> string" where
  "c_str s = takeWhile (\<lambda>c. c \<noteq> NUL) s"

text \<open>\<^verbatim>\<open>strstr(haystack, needle)\<close> on two C strings: the offset of the first occurrence, or -1.\<close>

fun strstr :: "string \<Rightarrow> string \<Rightarrow> int" where
  "strstr [] needle = (if needle = [] then 0 else - 1)"
| "strstr (c # cs) needle =
     (if prefix needle (c # cs) then 0
      else (let r = strstr cs needle in if r = - 1 then - 1 else r + 1))"

text \<open>
  \<^verbatim>\<open>String::indexOf(pattern)\<close>: -1 on an empty string, otherwise \<^verbatim>\<open>strstr\<close> on the two
  buffers.
\<close>

definition indexOf :: "string \<Rightarrow> string \<Rightarrow> int" where
  "indexOf s pat = (if length s = 0 then - 1 else strstr (c_str s) (c_str pat))"

text \<open>\<^verbatim>\<open>String::startsWith(pattern)\<close>.\<close>

definition startsWith :: "string \<Rightarrow> string \<Rightarrow> bool" where
  "startsWith s pat = prefix pat s"

subsection \<open>The transport\<close>

definition client_println :: "string \<Rightarrow> world \<Rightarrow> world" where
  "client_println s w = w\<lparr>sent := sent w @ [s]\<rparr>"

definition client_stop :: "world \<Rightarrow> world" where
  "client_stop w = w\<lparr>clientConnected := False\<rparr>"

definition client_connect :: "world \<Rightarrow> bool \<times> world" where
  "client_connect w = (connectOk w, w\<lparr>clientConnected := connectOk w\<rparr>)"

text \<open>
  \<^verbatim>\<open>client.readStringUntil('\n')\<close>: the bytes before the first line feed; the line feed
  is consumed and dropped. Without a line feed the whole buffer is returned.
\<close>

definition client_readStringUntil :: "char \<Rightarrow> world \<Rightarrow> string \<times> world" where
  "client_readStringUntil t w =
     (takeWhile (\<lambda>c. c \<noteq> t) (rx w), w\<lparr>rx := drop 1 (dropWhile (\<lambda>c. c \<noteq> t) (rx w))\<rparr>)"

definition millis :: "world \<Rightarrow> 32 word" where
  "millis w = clock w"

definition yield :: "world \<Rightarrow> world" where
  "yield w = w\<lparr>clock := clock w + yieldMs w\<rparr>"

section \<open>Message formatter\<close>

definition APRSformatBulletin :: "credentials \<Rightarrow> string \<Rightarrow> string \<Rightarrow> string" where
  "APRSformatBulletin cr message ID =
     CALLSIGN cr @ ''>APRS,TCPIP*:'' @ '':BLN'' @ ID @ ''     :'' @ message"

text \<open>\<^verbatim>\<open>snprintf(paddedCall, 10, "%-9.9s", ...)\<close>: at most 9 characters, left-justified in 9.\<close>

definition APRSpadCall :: "string \<Rightarrow> string" where
  "APRSpadCall callSign = take 9 callSign @ replicate (9 - length callSign) (CHR '' '')"

section \<open>Logon\<close>

definition logonString :: "credentials \<Rightarrow> string" where
  "logonString cr =
     ((''user '' @ CALLSIGN cr)
        @ ('' pass '' @ APRS_PASSCODE cr)
        @ ('' ver '' @ APRS_SOFTWARE_NAME cr @ '' '' @ APRS_SOFTWARE_VERS cr)
        @ ('' filter '' @ APRS_FILTER cr))"

definition performAPRSLogon :: "credentials \<Rightarrow> world \<Rightarrow> world" where
  "performAPRSLogon cr w = client_println (logonString cr) w"

section \<open>Sending\<close>

definition postToAPRS :: "string \<Rightarrow> world \<Rightarrow> world" where
  "postToAPRS message w =
     (if clientConnected w then client_println message w else w)"

definition APRSsendBulletin :: "credentials \<Rightarrow> string \<Rightarrow> string \<Rightarrow> world \<Rightarrow> world" where
  "APRSsendBulletin cr message ID w =
     (if length message > 67 then w
      else postToAPRS (APRSformatBulletin cr message ID) w)"

definition APRSsendACK :: "credentials \<Rightarrow> string \<Rightarrow> string \<Rightarrow> world \<Rightarrow> world" where
  "APRSsendACK cr recipient msgID w =
     client_println
       (CALLSIGN cr @ ''>APRS,TCPIP*:'' @ [APRS_ID_MESSAGE] @ APRSpadCall recipient
          @ [APRS_ID_MESSAGE] @ ''ack'' @ msgID) w"

section \<open>Packet reader\<close>

text \<open>
  \<^verbatim>\<open>bool readAPRSPacket(String &packet)\<close>: the result is the returned flag, the value
  left in \<^verbatim>\<open>packet\<close>, and the state.
\<close>

definition readAPRSPacket :: "world \<Rightarrow> bool \<times> string \<times> world" where
  "readAPRSPacket w =
     (if \<not> clientConnected w then (False, [], w)
      else if rx w \<noteq> [] then
        (case client_readStringUntil LF w of
           (packet, w1) \<Rightarrow> (length packet > 0, packet, w1\<lparr>timeoutStamp := 0\<rparr>))
      else
        (False, [],
         if timeoutStamp w = 0 then w\<lparr>timeoutStamp := millis w\<rparr>
         else if millis w - timeoutStamp w > TIMEOUT_MS
           then client_stop (w\<lparr>timeoutStamp := 0\<rparr>)
         else w))"

section \<open>Logon verification\<close>

text \<open>
  One pass of the \<^verbatim>\<open>while (millis() < timeout)\<close> loop of \<^verbatim>\<open>verifyLogonStatus\<close>: the
  test of the loop condition and, when it holds, the body. A pass either returns from
  the function or ends in \<^verbatim>\<open>yield()\<close> and hands the state to the next pass.
\<close>

datatype passOutcome = Returned bool world | NextPass world

definition verifyPass :: "32 word \<Rightarrow> world \<Rightarrow> passOutcome" where
  "verifyPass timeout w =
     (if millis w < timeout then
        (case readAPRSPacket w of
           (ok, response, w1) \<Rightarrow>
             if ok then
               if startsWith response ''# logresp'' then
                 if indexOf response ''verified'' \<noteq> - 1 \<and> indexOf response ''unverified'' = - 1
                   then Returned True w1
                 else if indexOf response ''unverified'' \<noteq> - 1
                   then Returned False w1
                 else NextPass (yield w1)
               else NextPass (yield w1)
             else NextPass (yield w1))
      else Returned False w)"

text \<open>
  The loop. Nothing in the code bounds the number of passes (a clock that does not
  advance keeps it spinning), so not returning is the value \<open>None\<close>.
\<close>

partial_function (option) verifyLoop :: "32 word \<Rightarrow> world \<Rightarrow> (bool \<times> world) option" where
  "verifyLoop timeout w =
     (case verifyPass timeout w of
        Returned b w' \<Rightarrow> Some (b, w')
      | NextPass w' \<Rightarrow> verifyLoop timeout w')"

declare verifyLoop.simps [code]


definition verifyLogonStatus :: "world \<Rightarrow> (bool \<times> world) option" where
  "verifyLogonStatus w = verifyLoop (millis w + APRS_TIMEOUT) w"

section \<open>Connection state machine\<close>

definition connectToAPRS :: "world \<Rightarrow> bool \<times> world" where
  "connectToAPRS w = (if clientConnected w then (True, w) else client_connect w)"

definition connectToAPRSserver :: "credentials \<Rightarrow> world \<Rightarrow> world option" where
  "connectToAPRSserver cr w =
     (case connectToAPRS w of
        (True, w1) \<Rightarrow>
          (case verifyLogonStatus (performAPRSLogon cr (w1\<lparr>aprsState := APRS_CONNECTED\<rparr>)) of
             None \<Rightarrow> None
           | Some (ok, w2) \<Rightarrow> Some (if ok then w2\<lparr>aprsState := APRS_VERIFIED\<rparr> else w2))
      | (False, w1) \<Rightarrow> Some w1)"

text \<open>
  The \<^verbatim>\<open>while (readAPRSPacket(packet))\<close> loop of \<^verbatim>\<open>pollAPRS\<close>; both branches of its
  body are empty. Every successful read consumes at least one byte of \<open>rx\<close>.
\<close>

function pollLoop :: "world \<Rightarrow> world" where
  "pollLoop w =
     (case readAPRSPacket w of (ok, packet, w1) \<Rightarrow> if ok then pollLoop w1 else w1)"
  by pat_completeness auto
termination
proof (relation "measure (\<lambda>w. length (rx w))")
  show "wf (measure (\<lambda>w. length (rx w)))"
    by simp
next
  fix w :: world and ok :: bool and y :: "string \<times> world"
    and packet :: string and w1 :: world
  assume xy: "(ok, y) = readAPRSPacket w" and y: "(packet, w1) = y" and ok: "ok"
  from xy y have r: "readAPRSPacket w = (ok, packet, w1)"
    by simp
  from r ok have ne: "rx w \<noteq> []"
    by (auto simp: readAPRSPacket_def split: if_splits)
  with r ok have w1: "rx w1 = drop 1 (dropWhile (\<lambda>c. c \<noteq> LF) (rx w))"
    by (auto simp: readAPRSPacket_def client_readStringUntil_def split: if_splits)
  have le: "length (dropWhile (\<lambda>c. c \<noteq> LF) (rx w)) \<le> length (rx w)"
    by (rule length_dropWhile_le)
  have "length (rx w1) < length (rx w)"
  proof (cases "dropWhile (\<lambda>c. c \<noteq> LF) (rx w)")
    case Nil
    from ne show ?thesis unfolding w1 Nil by simp
  next
    case (Cons a as)
    from le show ?thesis unfolding w1 Cons by simp
  qed
  then show "(w1, w) \<in> measure (\<lambda>w. length (rx w))"
    by simp
qed

definition pollAPRS :: "world \<Rightarrow> world" where
  "pollAPRS w =
     (if aprsState w \<noteq> APRS_VERIFIED then w
      else (let w1 = pollLoop w
            in if \<not> clientConnected w1 then w1\<lparr>aprsState := APRS_DISCONNECTED\<rparr> else w1))"

text \<open>\<^verbatim>\<open>updateAPRS\<close> discards what \<^verbatim>\<open>connectToAPRS\<close> returns.\<close>

definition updateAPRS :: "world \<Rightarrow> world option" where
  "updateAPRS w =
     (case aprsState w of
        APRS_DISCONNECTED \<Rightarrow> Some (snd (connectToAPRS w))
      | APRS_CONNECTED \<Rightarrow>
          (case verifyLogonStatus w of
             None \<Rightarrow> None
           | Some (ok, w1) \<Rightarrow> Some (if ok then w1\<lparr>aprsState := APRS_VERIFIED\<rparr> else w1))
      | APRS_LOGGED_IN \<Rightarrow>
          (case verifyLogonStatus w of
             None \<Rightarrow> None
           | Some (ok, w1) \<Rightarrow> Some (if ok then w1\<lparr>aprsState := APRS_VERIFIED\<rparr> else w1))
      | APRS_VERIFIED \<Rightarrow> Some (pollAPRS w))"

section \<open>Bulletin scheduler\<close>

text \<open>
  One call of \<^verbatim>\<open>processBulletins\<close>. \<open>hour\<close>, \<open>minute\<close> and \<open>day\<close> are what \<^verbatim>\<open>myTZ\<close>
  reports during the call and \<open>aphorism\<close> is what \<^verbatim>\<open>pickAphorism\<close> returns (the two
  calls of it are in branches that exclude each other).
\<close>

definition processBulletins ::
  "credentials \<Rightarrow> int \<Rightarrow> int \<Rightarrow> int \<Rightarrow> string \<Rightarrow> world \<Rightarrow> world" where
  "processBulletins cr hour minute day aphorism w =
     (let w1 = (if hour = 8 \<and> minute = 0 \<and> \<not> amBulletinSent w
                then (APRSsendBulletin cr aphorism ''M'' w)\<lparr>amBulletinSent := True\<rparr>
                else w);
          w2 = (if hour = 20 \<and> minute = 0 \<and> \<not> pmBulletinSent w1
                then (APRSsendBulletin cr aphorism ''E'' w1)\<lparr>pmBulletinSent := True\<rparr>
                else w1)
      in if day \<noteq> lastDay w2
         then w2\<lparr>lastDay := day, amBulletinSent := False, pmBulletinSent := False\<rparr>
         else w2)"

section \<open>Example inputs\<close>

text \<open>
  A world with nothing sent yet, the statics as at power-up, the clock at 1 ms and
  100 ms per \<^verbatim>\<open>yield()\<close>; the transport's state, its pending bytes and the connection
  state are the arguments.
\<close>

definition exampleWorld :: "bool \<Rightarrow> string \<Rightarrow> APRS_State \<Rightarrow> world" where
  "exampleWorld conn bytes st =
     \<lparr>clientConnected = conn, rx = bytes, sent = [], connectOk = False, clock = 1,
      yieldMs = 100, timeoutStamp = 0, aprsState = st, amBulletinSent = False,
      pmBulletinSent = False, lastDay = - 1\<rparr>"

definition exampleCredentials :: credentials where
  "exampleCredentials =
     \<lparr>CALLSIGN = ''CALL-2'', APRS_PASSCODE = ''9092'', APRS_SOFTWARE_NAME = ''ID'',
      APRS_SOFTWARE_VERS = ''VERSION'', APRS_FILTER = ''b/CALL-2*''\<rparr>"

section \<open>Theorems\<close>

subsection \<open>Substring search\<close>

lemma strstr_ge: "- 1 \<le> strstr s needle"
  by (induction s) (auto simp: Let_def)

lemma strstr_sublist: "strstr s needle \<noteq> - 1 \<longleftrightarrow> sublist needle s"
proof (induction s)
  case Nil
  show ?case by simp
next
  case (Cons c cs)
  show ?case
  proof (cases "prefix needle (c # cs)")
    case True
    then show ?thesis by (simp add: sublist_Cons_right)
  next
    case False
    have "strstr cs needle + 1 \<noteq> - 1"
      using strstr_ge [of cs needle] by arith
    with False Cons show ?thesis
      by (auto simp: sublist_Cons_right Let_def)
  qed
qed

lemma indexOf_sublist:
  "indexOf s pat \<noteq> - 1 \<longleftrightarrow> s \<noteq> [] \<and> sublist (c_str pat) (c_str s)"
  by (simp add: indexOf_def strstr_sublist)

subsection \<open>Formatter and logon line\<close>

text \<open>
  C7. For every callsign, message and ID the bulletin frame is the callsign, then
  \<^verbatim>\<open>>APRS,TCPIP*::BLN\<close>, the ID, exactly five spaces, a colon and the message; for
  callsign W4KRL-2, ID M and text "Keep calm." it is
  \<^verbatim>\<open>W4KRL-2>APRS,TCPIP*::BLNM     :Keep calm.\<close>.
\<close>

theorem C7_bulletin_frame:
  "APRSformatBulletin cr message ID =
     CALLSIGN cr @ ''>APRS,TCPIP*::BLN'' @ ID @ replicate 5 (CHR '' '') @ '':'' @ message
   \<and> APRSformatBulletin (cr\<lparr>CALLSIGN := ''W4KRL-2''\<rparr>) ''Keep calm.'' ''M'' =
       ''W4KRL-2>APRS,TCPIP*::BLNM     :Keep calm.''"
  by (simp add: APRSformatBulletin_def numeral_eq_Suc)

text \<open>
  C2. \<^verbatim>\<open>performAPRSLogon\<close> hands exactly one line to the transport: \<^verbatim>\<open>user\<close>, the
  callsign, \<^verbatim>\<open>pass\<close>, the passcode, the keyword, client id and version, \<^verbatim>\<open>filter\<close>
  and the filter, separated by single spaces. The keyword the code writes is
  \<^verbatim>\<open>ver\<close>: for callsign CALL-2, passcode 9092, id ID, version VERSION and filter
  b/CALL-2* the line sent is \<^verbatim>\<open>user CALL-2 pass 9092 ver ID VERSION filter b/CALL-2*\<close>,
  which is not the line with \<^verbatim>\<open>vers\<close> that the login format asks for.
\<close>

theorem C2_logon_line:
  "sent (performAPRSLogon cr w) =
     sent w @ [''user '' @ CALLSIGN cr @ '' pass '' @ APRS_PASSCODE cr @ '' ver ''
               @ APRS_SOFTWARE_NAME cr @ '' '' @ APRS_SOFTWARE_VERS cr
               @ '' filter '' @ APRS_FILTER cr]
   \<and> sent (performAPRSLogon exampleCredentials (exampleWorld True [] APRS_CONNECTED)) =
       [''user CALL-2 pass 9092 ver ID VERSION filter b/CALL-2*'']
   \<and> sent (performAPRSLogon exampleCredentials (exampleWorld True [] APRS_CONNECTED)) \<noteq>
       [''user CALL-2 pass 9092 vers ID VERSION filter b/CALL-2*'']"
  by (simp add: performAPRSLogon_def client_println_def logonString_def
      exampleCredentials_def exampleWorld_def)

subsection \<open>Bulletin scheduler\<close>

text \<open>
  What the scheduler does keep: a poll whose two flags are set writes nothing, and a
  poll that sees a day other than \<open>lastDay\<close> ends with that day recorded and both
  flags clear, whatever they were and whether or not a bulletin fired in that poll.
\<close>

lemma APRSsendBulletin_frame:
  "amBulletinSent (APRSsendBulletin cr message ID w) = amBulletinSent w
   \<and> pmBulletinSent (APRSsendBulletin cr message ID w) = pmBulletinSent w
   \<and> lastDay (APRSsendBulletin cr message ID w) = lastDay w"
  by (simp add: APRSsendBulletin_def postToAPRS_def client_println_def)

lemma processBulletins_flags_block:
  "amBulletinSent w \<Longrightarrow> pmBulletinSent w \<Longrightarrow>
     sent (processBulletins cr hour minute day aphorism w) = sent w"
  by (simp add: processBulletins_def Let_def)

lemma processBulletins_day_change:
  "day \<noteq> lastDay w \<Longrightarrow>
     lastDay (processBulletins cr hour minute day aphorism w) = day
     \<and> \<not> amBulletinSent (processBulletins cr hour minute day aphorism w)
     \<and> \<not> pmBulletinSent (processBulletins cr hour minute day aphorism w)"
  by (simp add: processBulletins_def Let_def APRSsendBulletin_frame)

lemma processBulletins_same_day_once:
  "lastDay w = day \<Longrightarrow>
     sent (processBulletins cr 8 0 day a2 (processBulletins cr 8 0 day a1 w))
       = sent (processBulletins cr 8 0 day a1 w)"
  by (simp add: processBulletins_def Let_def APRSsendBulletin_frame)

text \<open>
  C4. Two polls of the scheduler at 08:00 of the same day (day 5), the first one being
  the first poll after power-up, send the morning bulletin twice: the first poll
  fires, sets the flag and then, seeing a day other than \<open>lastDay = -1\<close>, clears it
  again, so the second poll fires once more.
\<close>

theorem C4_two_morning_bulletins:
  "sent (processBulletins exampleCredentials 8 0 5 ''Keep calm.''
          (processBulletins exampleCredentials 8 0 5 ''Keep calm.''
            (exampleWorld True [] APRS_VERIFIED))) =
     [''CALL-2>APRS,TCPIP*::BLNM     :Keep calm.'',
      ''CALL-2>APRS,TCPIP*::BLNM     :Keep calm.'']"
  by (simp add: processBulletins_def APRSsendBulletin_def postToAPRS_def client_println_def
      APRSformatBulletin_def exampleCredentials_def exampleWorld_def Let_def)

subsection \<open>Sending\<close>

text \<open>
  C5. A message longer than 67 characters is dropped by \<^verbatim>\<open>APRSsendBulletin\<close>: the
  state, and with it the list of lines written, is unchanged. A message of at most 67
  characters is written exactly once when the transport reports connected, and the
  line written is the bulletin frame, which contains \<^verbatim>\<open>:BLN\<close> followed by the ID; when
  the transport does not report connected nothing is written and the state is unchanged.
\<close>

theorem C5_bulletin_length_gate:
  "(length message > 67 \<longrightarrow> APRSsendBulletin cr message ID w = w)
   \<and> (length message \<le> 67 \<and> clientConnected w \<longrightarrow>
        (\<exists>line. APRSsendBulletin cr message ID w = w\<lparr>sent := sent w @ [line]\<rparr>
           \<and> line = APRSformatBulletin cr message ID \<and> sublist ('':BLN'' @ ID) line))
   \<and> (length message \<le> 67 \<and> \<not> clientConnected w \<longrightarrow> APRSsendBulletin cr message ID w = w)"
proof -
  have "sublist ('':BLN'' @ ID) (APRSformatBulletin cr message ID)"
    unfolding APRSformatBulletin_def sublist_def
    by (rule exI [of _ "CALLSIGN cr @ ''>APRS,TCPIP*:''"], rule exI [of _ "''     :'' @ message"]) simp
  then show ?thesis
    by (simp add: APRSsendBulletin_def postToAPRS_def client_println_def)
qed

theorem C5_bulletin_length_gate_witness:
  "length (replicate 68 (CHR ''x'')) > 67
   \<and> APRSsendBulletin exampleCredentials (replicate 68 (CHR ''x'')) ''M''
         (exampleWorld True [] APRS_VERIFIED)
       = exampleWorld True [] APRS_VERIFIED
   \<and> length ''Keep calm.'' \<le> 67 \<and> clientConnected (exampleWorld True [] APRS_VERIFIED)
   \<and> sent (APRSsendBulletin exampleCredentials ''Keep calm.'' ''M''
             (exampleWorld True [] APRS_VERIFIED))
       = [''CALL-2>APRS,TCPIP*::BLNM     :Keep calm.'']
   \<and> \<not> clientConnected (exampleWorld False [] APRS_VERIFIED)
   \<and> APRSsendBulletin exampleCredentials ''Keep calm.'' ''M'' (exampleWorld False [] APRS_VERIFIED)
       = exampleWorld False [] APRS_VERIFIED"
proof -
  let ?on = "exampleWorld True [] APRS_VERIFIED"
  let ?off = "exampleWorld False [] APRS_VERIFIED"
  have h1: "length (replicate 68 (CHR ''x'')) > 67"
    by simp
  have h2: "length ''Keep calm.'' \<le> 67 \<and> clientConnected ?on"
    by (simp add: exampleWorld_def)
  have h3: "length ''Keep calm.'' \<le> 67 \<and> \<not> clientConnected ?off"
    by (simp add: exampleWorld_def)
  from h1 C5_bulletin_length_gate [of "replicate 68 (CHR ''x'')" exampleCredentials "''M''" ?on]
  have r1: "APRSsendBulletin exampleCredentials (replicate 68 (CHR ''x'')) ''M'' ?on = ?on"
    by blast
  from h2 C5_bulletin_length_gate [of "''Keep calm.''" exampleCredentials "''M''" ?on]
  have "APRSsendBulletin exampleCredentials ''Keep calm.'' ''M'' ?on
          = ?on\<lparr>sent := sent ?on @ [APRSformatBulletin exampleCredentials ''Keep calm.'' ''M'']\<rparr>"
    by blast
  then have r2: "sent (APRSsendBulletin exampleCredentials ''Keep calm.'' ''M'' ?on)
          = [''CALL-2>APRS,TCPIP*::BLNM     :Keep calm.'']"
    by (simp add: exampleWorld_def exampleCredentials_def APRSformatBulletin_def)
  from h3 C5_bulletin_length_gate [of "''Keep calm.''" exampleCredentials "''M''" ?off]
  have r3: "APRSsendBulletin exampleCredentials ''Keep calm.'' ''M'' ?off = ?off"
    by blast
  from h1 h2 h3 r1 r2 r3 show ?thesis
    by blast
qed

theorem C5_counterexample:
  "length ''Keep calm.'' \<le> 67
   \<and> sent (APRSsendBulletin exampleCredentials ''Keep calm.'' ''M''
            (exampleWorld False [] APRS_VERIFIED)) = []"
  by (simp add: APRSsendBulletin_def postToAPRS_def exampleWorld_def)

text \<open>
  C6. Sending is gated on the transport, never on the connection state:
  \<^verbatim>\<open>APRSsendBulletin\<close> does the same whatever \<open>aprsState\<close> is; when the transport does
  not report connected the bulletin is dropped (the state is unchanged, so nothing is
  written and nothing is queued), and when it reports connected a bulletin of at most
  67 characters is written. \<^verbatim>\<open>APRSsendACK\<close> hands its frame to \<^verbatim>\<open>client.println\<close> with
  no check at all.
\<close>

theorem C6_send_gate:
  "APRSsendBulletin cr message ID (w\<lparr>aprsState := st\<rparr>) =
     (APRSsendBulletin cr message ID w)\<lparr>aprsState := st\<rparr>
   \<and> (\<not> clientConnected w \<longrightarrow> APRSsendBulletin cr message ID w = w)
   \<and> (clientConnected w \<and> length message \<le> 67 \<longrightarrow>
        sent (APRSsendBulletin cr message ID w) = sent w @ [APRSformatBulletin cr message ID])
   \<and> APRSsendACK cr recipient msgID w =
        w\<lparr>sent := sent w @ [CALLSIGN cr @ ''>APRS,TCPIP*::'' @ APRSpadCall recipient
                              @ '':ack'' @ msgID]\<rparr>"
  by (simp add: APRSsendBulletin_def postToAPRS_def client_println_def APRSsendACK_def
      APRS_ID_MESSAGE_def)

theorem C6_send_gate_witness:
  "\<not> clientConnected (exampleWorld False [] APRS_CONNECTED)
   \<and> APRSsendBulletin exampleCredentials ''Keep calm.'' ''M'' (exampleWorld False [] APRS_CONNECTED)
       = exampleWorld False [] APRS_CONNECTED
   \<and> clientConnected (exampleWorld True [] APRS_CONNECTED)
   \<and> length ''Keep calm.'' \<le> 67
   \<and> sent (APRSsendBulletin exampleCredentials ''Keep calm.'' ''M''
             (exampleWorld True [] APRS_CONNECTED))
       = [''CALL-2>APRS,TCPIP*::BLNM     :Keep calm.'']"
proof -
  let ?off = "exampleWorld False [] APRS_CONNECTED"
  let ?on = "exampleWorld True [] APRS_CONNECTED"
  have h1: "\<not> clientConnected ?off"
    by (simp add: exampleWorld_def)
  have h2: "clientConnected ?on \<and> length ''Keep calm.'' \<le> 67"
    by (simp add: exampleWorld_def)
  have r1: "APRSsendBulletin exampleCredentials ''Keep calm.'' ''M'' ?off = ?off"
    using h1 C6_send_gate [where cr = exampleCredentials and message = "''Keep calm.''"
        and ID = "''M''" and w = ?off and st = APRS_CONNECTED and recipient = "[]" and msgID = "[]"]
    by blast
  have "sent (APRSsendBulletin exampleCredentials ''Keep calm.'' ''M'' ?on)
          = sent ?on @ [APRSformatBulletin exampleCredentials ''Keep calm.'' ''M'']"
    using h2 C6_send_gate [where cr = exampleCredentials and message = "''Keep calm.''"
        and ID = "''M''" and w = ?on and st = APRS_CONNECTED and recipient = "[]" and msgID = "[]"]
    by blast
  also have "\<dots> = [''CALL-2>APRS,TCPIP*::BLNM     :Keep calm.'']"
    by (simp add: exampleWorld_def exampleCredentials_def APRSformatBulletin_def)
  finally have r2: "sent (APRSsendBulletin exampleCredentials ''Keep calm.'' ''M'' ?on)
          = [''CALL-2>APRS,TCPIP*::BLNM     :Keep calm.'']" .
  from h1 h2 r1 r2 show ?thesis
    by blast
qed

theorem C6_counterexample:
  "aprsState (exampleWorld True [] APRS_CONNECTED) \<noteq> APRS_VERIFIED
   \<and> sent (APRSsendBulletin exampleCredentials ''Keep calm.'' ''M''
             (exampleWorld True [] APRS_CONNECTED))
       = [''CALL-2>APRS,TCPIP*::BLNM     :Keep calm.'']
   \<and> sent (APRSsendACK exampleCredentials ''W4KRL'' ''7'' (exampleWorld True [] APRS_CONNECTED))
       = [''CALL-2>APRS,TCPIP*::W4KRL    :ack7'']"
  by code_simp

subsection \<open>Packet reader\<close>

text \<open>
  C8. When the transport does not report connected, \<^verbatim>\<open>readAPRSPacket\<close> returns false
  with an empty packet and changes nothing. When it reports connected and bytes are
  available, the packet is the bytes before the first line feed (the line feed is
  consumed and not part of the packet), the idle timer is reset to 0, the transport
  stays connected, and the returned flag is true exactly when the packet is not empty.
\<close>

theorem C8_readAPRSPacket:
  "(\<not> clientConnected w \<longrightarrow> readAPRSPacket w = (False, [], w))
   \<and> (clientConnected w \<and> rx w \<noteq> [] \<longrightarrow>
        (\<exists>packet w'. readAPRSPacket w = (packet \<noteq> [], packet, w')
           \<and> packet = takeWhile (\<lambda>c. c \<noteq> LF) (rx w) \<and> LF \<notin> set packet
           \<and> (rx w = packet @ LF # rx w' \<or> rx w = packet \<and> rx w' = [])
           \<and> timeoutStamp w' = 0 \<and> clientConnected w'))"
proof -
  let ?p = "takeWhile (\<lambda>c. c \<noteq> LF) (rx w)"
  let ?d = "dropWhile (\<lambda>c. c \<noteq> LF) (rx w)"
  have nin: "LF \<notin> set ?p"
    by (auto dest: set_takeWhileD)
  have id: "rx w = ?p @ ?d"
    by simp
  have split: "rx w = ?p @ LF # drop 1 ?d \<or> rx w = ?p \<and> drop 1 ?d = []"
  proof (cases ?d)
    case Nil
    have a: "rx w = ?p"
      using id unfolding Nil by simp
    have b: "drop 1 ?d = []"
      unfolding Nil by simp
    from a b show ?thesis by blast
  next
    case (Cons a as)
    have "\<not> (hd ?d \<noteq> LF)"
      by (rule hd_dropWhile) (simp add: Cons)
    then have "a = LF"
      by (simp add: Cons)
    then have "?d = LF # drop 1 ?d"
      by (simp add: Cons)
    with id show ?thesis by metis
  qed
  let ?w' = "w\<lparr>rx := drop 1 ?d, timeoutStamp := 0\<rparr>"
  have off: "\<not> clientConnected w \<longrightarrow> readAPRSPacket w = (False, [], w)"
    by (simp add: readAPRSPacket_def)
  have on: "\<exists>packet w'. readAPRSPacket w = (packet \<noteq> [], packet, w')
           \<and> packet = takeWhile (\<lambda>c. c \<noteq> LF) (rx w) \<and> LF \<notin> set packet
           \<and> (rx w = packet @ LF # rx w' \<or> rx w = packet \<and> rx w' = [])
           \<and> timeoutStamp w' = 0 \<and> clientConnected w'"
    if c: "clientConnected w \<and> rx w \<noteq> []"
  proof -
    from c have r: "readAPRSPacket w = (?p \<noteq> [], ?p, ?w')"
      by (simp add: readAPRSPacket_def client_readStringUntil_def)
    have rx': "rx ?w' = drop 1 ?d"
      by simp
    have split': "rx w = ?p @ LF # rx ?w' \<or> rx w = ?p \<and> rx ?w' = []"
      unfolding rx' by (rule split)
    have st: "timeoutStamp ?w' = 0"
      by simp
    from c have cc: "clientConnected ?w'"
      by simp
    from r nin split' st cc show ?thesis
      by blast
  qed
  from off on show ?thesis
    by blast
qed

theorem C8_readAPRSPacket_witness:
  "\<not> clientConnected (exampleWorld False ''abc'' APRS_VERIFIED)
   \<and> readAPRSPacket (exampleWorld False ''abc'' APRS_VERIFIED)
       = (False, [], exampleWorld False ''abc'' APRS_VERIFIED)
   \<and> clientConnected (exampleWorld True (''# hello'' @ [LF] @ ''x'') APRS_VERIFIED)
   \<and> rx (exampleWorld True (''# hello'' @ [LF] @ ''x'') APRS_VERIFIED) \<noteq> []
   \<and> fst (readAPRSPacket (exampleWorld True (''# hello'' @ [LF] @ ''x'') APRS_VERIFIED)) = True
   \<and> fst (snd (readAPRSPacket (exampleWorld True (''# hello'' @ [LF] @ ''x'') APRS_VERIFIED)))
       = ''# hello''"
proof -
  let ?off = "exampleWorld False ''abc'' APRS_VERIFIED"
  let ?on = "exampleWorld True (''# hello'' @ [LF] @ ''x'') APRS_VERIFIED"
  have h1: "\<not> clientConnected ?off"
    by (simp add: exampleWorld_def)
  have h2: "clientConnected ?on \<and> rx ?on \<noteq> []"
    by (simp add: exampleWorld_def)
  from h1 C8_readAPRSPacket [of ?off]
  have r1: "readAPRSPacket ?off = (False, [], ?off)"
    by blast
  from h2 C8_readAPRSPacket [of ?on]
  obtain packet w' where r2: "readAPRSPacket ?on = (packet \<noteq> [], packet, w')"
    and p: "packet = takeWhile (\<lambda>c. c \<noteq> LF) (rx ?on)"
    by blast
  have "takeWhile (\<lambda>c. c \<noteq> LF) (rx ?on) = ''# hello''"
    by (simp add: exampleWorld_def LF_def)
  with p have "packet = ''# hello''"
    by simp
  with r2 have "fst (readAPRSPacket ?on) = True" and "fst (snd (readAPRSPacket ?on)) = ''# hello''"
    by simp_all
  with h1 h2 r1 show ?thesis
    by blast
qed

theorem C8_counterexample:
  "clientConnected (exampleWorld True [LF] APRS_VERIFIED)
   \<and> rx (exampleWorld True [LF] APRS_VERIFIED) \<noteq> []
   \<and> fst (readAPRSPacket (exampleWorld True [LF] APRS_VERIFIED)) = False"
  by (simp add: readAPRSPacket_def client_readStringUntil_def exampleWorld_def)

subsection \<open>The verification loop\<close>

text \<open>
  What a pass of the loop leaves alone, that the loop returns when every
  \<^verbatim>\<open>yield()\<close> lets time pass and the clock does not wrap before the deadline, and
  how the run of the loop and its result are related.
\<close>

lemma readAPRSPacket_frame:
  "readAPRSPacket w = (ok, p, w1) \<Longrightarrow>
     aprsState w1 = aprsState w \<and> clock w1 = clock w \<and> yieldMs w1 = yieldMs w
     \<and> sent w1 = sent w \<and> connectOk w1 = connectOk w"
  by (auto simp: readAPRSPacket_def client_readStringUntil_def client_stop_def
      split: if_splits)

lemma readAPRSPacket_ok: "readAPRSPacket w = (ok, p, w1) \<Longrightarrow> ok = (p \<noteq> [])"
  by (auto simp: readAPRSPacket_def client_readStringUntil_def split: if_splits)

lemma verifyPass_NextPass:
  assumes "verifyPass t w = NextPass w'"
  shows "millis w < t \<and> w' = yield (snd (snd (readAPRSPacket w)))"
  using assms
  by (cases "readAPRSPacket w") (auto simp: verifyPass_def split: if_splits)

lemma verifyPass_Returned:
  assumes "verifyPass t w = Returned b w'"
  shows "w' = (if millis w < t then snd (snd (readAPRSPacket w)) else w)"
  using assms
  by (cases "readAPRSPacket w") (auto simp: verifyPass_def split: if_splits)

lemma verifyPass_frame:
  assumes "verifyPass t w = Returned b w' \<or> verifyPass t w = NextPass w'"
  shows "aprsState w' = aprsState w \<and> sent w' = sent w \<and> yieldMs w' = yieldMs w
         \<and> connectOk w' = connectOk w"
proof -
  obtain ok p w1 where rd: "readAPRSPacket w = (ok, p, w1)"
    by (cases "readAPRSPacket w")
  note fr = readAPRSPacket_frame [OF rd]
  from assms show ?thesis
  proof
    assume "verifyPass t w = Returned b w'"
    from verifyPass_Returned [OF this] rd fr show ?thesis
      by (simp split: if_splits)
  next
    assume "verifyPass t w = NextPass w'"
    from verifyPass_NextPass [OF this] rd fr show ?thesis
      by (simp add: yield_def)
  qed
qed

lemma verifyLoop_frame:
  assumes "verifyLoop t w = Some r"
  shows "aprsState (snd r) = aprsState w \<and> sent (snd r) = sent w"
  using assms
proof (induction t w r rule: verifyLoop.raw_induct [rotated 1, consumes 1])
  case (1 loop t w r)
  show ?case
  proof (cases "verifyPass t w")
    case (Returned b w')
    with "1.hyps" have "r = (b, w')"
      by simp
    with verifyPass_frame [of t w b w'] Returned show ?thesis
      by simp
  next
    case (NextPass w')
    with "1.hyps" have "loop t w' = Some r"
      by simp
    from "1.IH" [OF this] verifyPass_frame [of t w _ w'] NextPass show ?thesis
      by simp
  qed
qed

lemma yield_clock:
  assumes lt: "clock w < t" and nowrap: "unat t + unat (yieldMs w) < 2 ^ 32"
  shows "unat (clock (yield w)) = unat (clock w) + unat (yieldMs w)"
proof -
  from lt have "unat (clock w) < unat t"
    by (simp add: word_less_nat_alt)
  with nowrap have "unat (clock w) + unat (yieldMs w) < 2 ^ LENGTH(32)"
    by simp
  then have "unat (clock w + yieldMs w) = unat (clock w) + unat (yieldMs w)"
    by (simp only: unat_add_lem)
  then show ?thesis
    by (simp add: yield_def)
qed

lemma verifyLoop_returns:
  assumes pos: "0 < unat (yieldMs w)" and nowrap: "unat t + unat (yieldMs w) < 2 ^ 32"
  shows "\<exists>r. verifyLoop t w = Some r"
  using assms
proof (induction "unat t - unat (clock w)" arbitrary: w rule: less_induct)
  case less
  show ?case
  proof (cases "verifyPass t w")
    case (Returned b w')
    then have "verifyLoop t w = Some (b, w')"
      by (subst verifyLoop.simps) simp
    then show ?thesis
      by blast
  next
    case (NextPass w')
    obtain ok p w1 where rd: "readAPRSPacket w = (ok, p, w1)"
      by (cases "readAPRSPacket w")
    note fr = readAPRSPacket_frame [OF rd]
    from verifyPass_NextPass [OF NextPass] rd
    have lt0: "millis w < t" and w': "w' = yield w1"
      by simp_all
    from lt0 fr have lt: "clock w1 < t"
      by (simp add: millis_def)
    from less.prems fr have nw: "unat t + unat (yieldMs w1) < 2 ^ 32"
      by simp
    have c: "unat (clock w') = unat (clock w) + unat (yieldMs w)"
      using yield_clock [OF lt nw] fr w' by simp
    have ym: "yieldMs w' = yieldMs w"
      using fr w' by (simp add: yield_def)
    from lt fr have "unat (clock w) < unat t"
      by (simp add: word_less_nat_alt)
    with c less.prems have dec: "unat t - unat (clock w') < unat t - unat (clock w)"
      by arith
    from less.hyps [OF dec] less.prems ym
    obtain r where rec: "verifyLoop t w' = Some r"
      by auto
    have "verifyLoop t w = verifyLoop t w'"
      using NextPass by (subst verifyLoop.simps) simp
    with rec show ?thesis
      by simp
  qed
qed

lemma verifyLogonStatus_returns:
  assumes "0 < unat (yieldMs w)" and "unat (clock w) + 2000 + unat (yieldMs w) < 2 ^ 32"
  shows "\<exists>ok w1. verifyLogonStatus w = Some (ok, w1) \<and> aprsState w1 = aprsState w
           \<and> sent w1 = sent w"
proof -
  from assms(2) have "unat (clock w) + unat APRS_TIMEOUT < 2 ^ LENGTH(32)"
    by (simp add: APRS_TIMEOUT_def)
  then have "unat (clock w + APRS_TIMEOUT) = unat (clock w) + unat APRS_TIMEOUT"
    by (simp only: unat_add_lem)
  with assms(2) have "unat (millis w + APRS_TIMEOUT) + unat (yieldMs w) < 2 ^ 32"
    by (simp add: millis_def APRS_TIMEOUT_def)
  from verifyLoop_returns [OF assms(1) this]
  obtain r where r: "verifyLogonStatus w = Some r"
    unfolding verifyLogonStatus_def by blast
  then have "aprsState (snd r) = aprsState w \<and> sent (snd r) = sent w"
    unfolding verifyLogonStatus_def by (rule verifyLoop_frame)
  with r show ?thesis
    by (cases r) auto
qed



text \<open>
  On a transport that is closed every pass only lets time pass, so the loop runs to its
  deadline and returns false at the first pass that starts at or after it.
\<close>

lemma closed_pass:
  assumes "\<not> clientConnected v"
  shows "verifyPass t v = (if millis v < t then NextPass (yield v) else Returned False v)"
  using assms by (simp add: verifyPass_def readAPRSPacket_def)

lemma closed_loop:
  assumes closed: "\<not> clientConnected v" and dpos: "0 < unat (yieldMs v)"
    and nowrap: "unat t + unat (yieldMs v) < 2 ^ 32"
    and near: "unat (clock v) < unat t + unat (yieldMs v)"
  shows "\<exists>c. verifyLoop t v = Some (False, v\<lparr>clock := c\<rparr>)
           \<and> t \<le> c \<and> unat c < unat t + unat (yieldMs v)"
  using assms
proof (induction "unat t - unat (clock v)" arbitrary: v rule: less_induct)
  case less
  show ?case
  proof (cases "millis v < t")
    case False
    with less.prems(1) have "verifyLoop t v = Some (False, v\<lparr>clock := clock v\<rparr>)"
      by (subst verifyLoop.simps) (simp add: closed_pass)
    moreover from False have "t \<le> clock v"
      by (simp add: millis_def)
    ultimately show ?thesis
      using less.prems(4) by blast
  next
    case True
    then have lt: "clock v < t"
      by (simp add: millis_def)
    have c: "unat (clock (yield v)) = unat (clock v) + unat (yieldMs v)"
      using yield_clock [OF lt less.prems(3)] .
    from lt have lt': "unat (clock v) < unat t"
      by (simp add: word_less_nat_alt)
    with c less.prems have dec: "unat t - unat (clock (yield v)) < unat t - unat (clock v)"
      by arith
    have y: "\<not> clientConnected (yield v)" "yieldMs (yield v) = yieldMs v"
      using less.prems(1) by (simp_all add: yield_def)
    have near': "unat (clock (yield v)) < unat t + unat (yieldMs (yield v))"
      using c lt' y by simp
    from less.hyps [OF dec y(1) _ _ near'] less.prems(2,3) y(2)
    obtain c' where rec: "verifyLoop t (yield v) = Some (False, (yield v)\<lparr>clock := c'\<rparr>)"
      and b: "t \<le> c'" "unat c' < unat t + unat (yieldMs v)"
      by auto
    have "verifyLoop t v = verifyLoop t (yield v)"
      using True less.prems(1) by (subst verifyLoop.simps) (simp add: closed_pass)
    with rec have "verifyLoop t v = Some (False, v\<lparr>clock := c'\<rparr>)"
      by (simp add: yield_def)
    with b show ?thesis
      by blast
  qed
qed

text \<open>
  The logon sequence run from \<^verbatim>\<open>setup()\<close>: when the connect step succeeds and the
  verification returns, the logon line is the one line written, whatever the outcome.
\<close>

lemma connectToAPRSserver_sends_logon:
  assumes "connectToAPRS w = (True, w1)" and "connectToAPRSserver cr w = Some w'"
  shows "sent w' = sent w @ [logonString cr]"
proof -
  let ?w2 = "performAPRSLogon cr (w1\<lparr>aprsState := APRS_CONNECTED\<rparr>)"
  from assms(1) have s1: "sent w1 = sent w"
    by (auto simp: connectToAPRS_def client_connect_def split: if_splits)
  from assms obtain ok w3 where v: "verifyLogonStatus ?w2 = Some (ok, w3)"
    and w': "w' = (if ok then w3\<lparr>aprsState := APRS_VERIFIED\<rparr> else w3)"
    by (auto simp: connectToAPRSserver_def split: option.splits)
  from v have "sent (snd (ok, w3)) = sent ?w2"
    unfolding verifyLogonStatus_def by (rule verifyLoop_frame [THEN conjunct2])
  with s1 w' show ?thesis
    by (simp add: performAPRSLogon_def client_println_def)
qed

text \<open>
  C3. A pass of the verification loop that reads a line judges it by three tests. The
  first is that the line begins with \<^verbatim>\<open># logresp\<close>; the other two are substring
  searches, which \<^verbatim>\<open>String::indexOf\<close> runs with \<^verbatim>\<open>strstr\<close> and which therefore see the
  line up to its first NUL byte (the whole line when it has none). A line that begins
  with \<^verbatim>\<open># logresp\<close> is verified exactly when that part contains \<^verbatim>\<open>verified\<close> and does
  not contain \<^verbatim>\<open>unverified\<close>; if that part contains \<^verbatim>\<open>unverified\<close> the line is a
  definitive rejection and verification ends with false. Every other line is ignored
  and the loop goes on with the next pass: an empty line (for which the reader reports
  false), a line that does not begin with \<^verbatim>\<open># logresp\<close> whatever it contains, and a
  \<^verbatim>\<open># logresp\<close> line with neither word before its first NUL byte.
\<close>

theorem C3_logresp_decision:
  assumes window: "millis w < timeout" and line: "readAPRSPacket w = (ok, response, w1)"
  shows "ok = (response \<noteq> [])
         \<and> verifyLoop timeout w =
           (if prefix ''# logresp'' response \<and> sublist ''verified'' (c_str response)
                 \<and> \<not> sublist ''unverified'' (c_str response)
              then Some (True, w1)
            else if prefix ''# logresp'' response \<and> sublist ''unverified'' (c_str response)
              then Some (False, w1)
            else verifyLoop timeout (yield w1))"
proof -
  have ok: "ok = (response \<noteq> [])"
    by (rule readAPRSPacket_ok [OF line])
  have p: "prefix ''# logresp'' response \<Longrightarrow> response \<noteq> []"
    by auto
  have v: "indexOf response ''verified'' \<noteq> - 1
             \<longleftrightarrow> response \<noteq> [] \<and> sublist ''verified'' (c_str response)"
    by (simp add: indexOf_sublist c_str_def NUL_def)
  have u: "indexOf response ''unverified'' \<noteq> - 1
             \<longleftrightarrow> response \<noteq> [] \<and> sublist ''unverified'' (c_str response)"
    by (simp add: indexOf_sublist c_str_def NUL_def)
  from u have u': "indexOf response ''unverified'' = - 1
             \<longleftrightarrow> \<not> (response \<noteq> [] \<and> sublist ''unverified'' (c_str response))"
    by blast
  have pass: "verifyPass timeout w =
           (if prefix ''# logresp'' response \<and> sublist ''verified'' (c_str response)
                 \<and> \<not> sublist ''unverified'' (c_str response)
              then Returned True w1
            else if prefix ''# logresp'' response \<and> sublist ''unverified'' (c_str response)
              then Returned False w1
            else NextPass (yield w1))"
    using window line ok p
    by (auto simp: verifyPass_def startsWith_def v u')
  show ?thesis
    using ok by (subst verifyLoop.simps) (simp add: pass)
qed

theorem C3_logresp_decision_witness:
  "millis (exampleWorld True (''# logresp CALL-2 verified, server T2'' @ [LF]) APRS_CONNECTED) < 2001
   \<and> readAPRSPacket (exampleWorld True (''# logresp CALL-2 verified, server T2'' @ [LF]) APRS_CONNECTED)
       = (True, ''# logresp CALL-2 verified, server T2'', exampleWorld True [] APRS_CONNECTED)
   \<and> verifyLoop 2001 (exampleWorld True (''# logresp CALL-2 verified, server T2'' @ [LF]) APRS_CONNECTED)
       = Some (True, exampleWorld True [] APRS_CONNECTED)
   \<and> millis (exampleWorld True (''# logresp CALL-2 unverified, server T2'' @ [LF]) APRS_CONNECTED) < 2001
   \<and> readAPRSPacket (exampleWorld True (''# logresp CALL-2 unverified, server T2'' @ [LF]) APRS_CONNECTED)
       = (True, ''# logresp CALL-2 unverified, server T2'', exampleWorld True [] APRS_CONNECTED)
   \<and> verifyLoop 2001 (exampleWorld True (''# logresp CALL-2 unverified, server T2'' @ [LF]) APRS_CONNECTED)
       = Some (False, exampleWorld True [] APRS_CONNECTED)
   \<and> millis (exampleWorld True ((''# logresp '' @ [NUL] @ ''verified'') @ [LF]) APRS_CONNECTED) < 2001
   \<and> readAPRSPacket (exampleWorld True ((''# logresp '' @ [NUL] @ ''verified'') @ [LF]) APRS_CONNECTED)
       = (True, ''# logresp '' @ [NUL] @ ''verified'', exampleWorld True [] APRS_CONNECTED)
   \<and> verifyLoop 2001 (exampleWorld True ((''# logresp '' @ [NUL] @ ''verified'') @ [LF]) APRS_CONNECTED)
       = verifyLoop 2001 (yield (exampleWorld True [] APRS_CONNECTED))
   \<and> millis (exampleWorld True [LF] APRS_CONNECTED) < 2001
   \<and> readAPRSPacket (exampleWorld True [LF] APRS_CONNECTED)
       = (False, [], exampleWorld True [] APRS_CONNECTED)
   \<and> verifyLoop 2001 (exampleWorld True [LF] APRS_CONNECTED)
       = verifyLoop 2001 (yield (exampleWorld True [] APRS_CONNECTED))"
proof -
  let ?good = "''# logresp CALL-2 verified, server T2''"
  let ?bad = "''# logresp CALL-2 unverified, server T2''"
  let ?cut = "''# logresp '' @ [NUL] @ ''verified''"
  let ?wg = "exampleWorld True (?good @ [LF]) APRS_CONNECTED"
  let ?wb = "exampleWorld True (?bad @ [LF]) APRS_CONNECTED"
  let ?wc = "exampleWorld True (?cut @ [LF]) APRS_CONNECTED"
  let ?we = "exampleWorld True [LF] APRS_CONNECTED"
  let ?w1 = "exampleWorld True [] APRS_CONNECTED"
  have mg: "millis ?wg < 2001" and mb: "millis ?wb < 2001"
    and mc: "millis ?wc < 2001" and me: "millis ?we < 2001"
    by (simp_all add: exampleWorld_def millis_def)
  have rg: "readAPRSPacket ?wg = (True, ?good, ?w1)"
    by (simp add: exampleWorld_def readAPRSPacket_def client_readStringUntil_def LF_def)
  have rb: "readAPRSPacket ?wb = (True, ?bad, ?w1)"
    by (simp add: exampleWorld_def readAPRSPacket_def client_readStringUntil_def LF_def)
  have rc: "readAPRSPacket ?wc = (True, ?cut, ?w1)"
    by (simp add: exampleWorld_def readAPRSPacket_def client_readStringUntil_def LF_def NUL_def)
  have re: "readAPRSPacket ?we = (False, [], ?w1)"
    by (simp add: exampleWorld_def readAPRSPacket_def client_readStringUntil_def LF_def)
  have g: "prefix ''# logresp'' ?good \<and> sublist ''verified'' (c_str ?good)
             \<and> \<not> sublist ''unverified'' (c_str ?good)"
    by (simp add: c_str_def NUL_def sublist_Cons_right)
  have b: "prefix ''# logresp'' ?bad \<and> sublist ''unverified'' (c_str ?bad)"
    by (simp add: c_str_def NUL_def sublist_Cons_right)
  have c: "\<not> sublist ''verified'' (c_str ?cut) \<and> \<not> sublist ''unverified'' (c_str ?cut)"
    by (simp add: c_str_def NUL_def sublist_Cons_right)
  have vg: "verifyLoop 2001 ?wg = Some (True, ?w1)"
    using C3_logresp_decision [OF mg rg] g by simp
  have vb: "verifyLoop 2001 ?wb = Some (False, ?w1)"
    using C3_logresp_decision [OF mb rb] b by simp
  have vc: "verifyLoop 2001 ?wc = verifyLoop 2001 (yield ?w1)"
    using C3_logresp_decision [OF mc rc] c by simp
  have ve: "verifyLoop 2001 ?we = verifyLoop 2001 (yield ?w1)"
    using C3_logresp_decision [OF me re] by simp
  from mg rg vg mb rb vb mc rc vc me re ve show ?thesis
    by blast
qed

theorem C3_counterexample:
  "sublist ''verified'' ''verified'' \<and> \<not> sublist ''unverified'' ''verified''
   \<and> readAPRSPacket (exampleWorld True (''verified'' @ [LF]) APRS_CONNECTED)
       = (True, ''verified'', exampleWorld True [] APRS_CONNECTED)
   \<and> verifyLogonStatus (exampleWorld True (''verified'' @ [LF]) APRS_CONNECTED)
       = Some (False, (exampleWorld False [] APRS_CONNECTED)\<lparr>clock := 2001\<rparr>)
   \<and> sublist ''unverified'' ''unverified''
   \<and> verifyLogonStatus
         (exampleWorld True (''unverified'' @ [LF] @ ''# logresp CALL-2 verified, server T2'' @ [LF])
            APRS_CONNECTED)
       = Some (True, (exampleWorld True [] APRS_CONNECTED)\<lparr>clock := 101\<rparr>)"
proof -
  have s: "sublist ''verified'' ''verified'' \<and> \<not> sublist ''unverified'' ''verified''
           \<and> sublist ''unverified'' ''unverified''"
    by (simp add: sublist_Cons_right)
  have r: "readAPRSPacket (exampleWorld True (''verified'' @ [LF]) APRS_CONNECTED)
       = (True, ''verified'', exampleWorld True [] APRS_CONNECTED)"
    by (simp add: exampleWorld_def readAPRSPacket_def client_readStringUntil_def LF_def)
  have v1: "verifyLogonStatus (exampleWorld True (''verified'' @ [LF]) APRS_CONNECTED)
       = Some (False, (exampleWorld False [] APRS_CONNECTED)\<lparr>clock := 2001\<rparr>)"
    by code_simp
  have v2: "verifyLogonStatus
         (exampleWorld True (''unverified'' @ [LF] @ ''# logresp CALL-2 verified, server T2'' @ [LF])
            APRS_CONNECTED)
       = Some (True, (exampleWorld True [] APRS_CONNECTED)\<lparr>clock := 101\<rparr>)"
    by code_simp
  from s r v1 v2 show ?thesis
    by blast
qed

subsection \<open>Connection state machine\<close>

text \<open>
  A poll in state Disconnected never changes the state, whether the connect attempt
  fails or succeeds: \<^verbatim>\<open>updateAPRS\<close> ignores the result of \<^verbatim>\<open>connectToAPRS\<close>. A failed
  attempt changes nothing at all.
\<close>

lemma updateAPRS_disconnected_stays:
  assumes "aprsState w = APRS_DISCONNECTED"
  shows "\<exists>w'. updateAPRS w = Some w' \<and> aprsState w' = APRS_DISCONNECTED"
  using assms by (simp add: updateAPRS_def connectToAPRS_def client_connect_def)

lemma updateAPRS_failed_connect:
  assumes "aprsState w = APRS_DISCONNECTED" and "\<not> clientConnected w" and "\<not> connectOk w"
  shows "updateAPRS w = Some w"
proof -
  from assms have "w\<lparr>clientConnected := connectOk w\<rparr> = w"
    by simp
  with assms show ?thesis
    by (simp add: updateAPRS_def connectToAPRS_def client_connect_def)
qed

text \<open>
  A poll in state LoggedIn or Connected whose verification check returns false leaves
  the state as it was. When the transport is closed the check can only time out, so
  such a poll changes nothing but the clock: no later poll leaves the state or opens
  the transport again.
\<close>

lemma updateAPRS_failed_check:
  assumes "aprsState w = APRS_LOGGED_IN \<or> aprsState w = APRS_CONNECTED"
    and "verifyLogonStatus w = Some (False, w1)"
  shows "updateAPRS w = Some w1 \<and> aprsState w1 = aprsState w"
proof -
  from assms(2) have "aprsState (snd (False, w1)) = aprsState w"
    unfolding verifyLogonStatus_def by (rule verifyLoop_frame [THEN conjunct1])
  with assms show ?thesis
    by (auto simp: updateAPRS_def)
qed

lemma updateAPRS_closed_transport_stuck:
  assumes st: "aprsState w = APRS_LOGGED_IN \<or> aprsState w = APRS_CONNECTED"
    and closed: "\<not> clientConnected w" and dpos: "0 < unat (yieldMs w)"
    and room: "unat (clock w) + 2000 + unat (yieldMs w) < 2 ^ 32"
  shows "\<exists>c. updateAPRS w = Some (w\<lparr>clock := c\<rparr>)"
proof -
  let ?T = "millis w + APRS_TIMEOUT"
  from room have "unat (clock w) + unat APRS_TIMEOUT < 2 ^ LENGTH(32)"
    by (simp add: APRS_TIMEOUT_def)
  then have "unat (clock w + APRS_TIMEOUT) = unat (clock w) + unat APRS_TIMEOUT"
    by (simp only: unat_add_lem)
  then have T: "unat ?T = unat (clock w) + 2000"
    by (simp add: millis_def APRS_TIMEOUT_def)
  have "\<exists>c. verifyLoop ?T w = Some (False, w\<lparr>clock := c\<rparr>)
           \<and> ?T \<le> c \<and> unat c < unat ?T + unat (yieldMs w)"
    by (rule closed_loop [OF closed dpos]) (use T room in simp_all)
  then obtain c where "verifyLogonStatus w = Some (False, w\<lparr>clock := c\<rparr>)"
    unfolding verifyLogonStatus_def by blast
  from updateAPRS_failed_check [OF st this] show ?thesis
    by blast
qed

text \<open>
  C1. A poll of \<^verbatim>\<open>updateAPRS\<close> in state LoggedIn on a connected transport that stays
  silent: the verification check times out (the reader has closed the transport by
  then) and returns false, and the poll ends in state LoggedIn, not Disconnected. The
  next polls time out again and stay in LoggedIn with the transport closed, although
  the server would accept a new connection: only state Disconnected reconnects. A
  check that is rejected by an \<^verbatim>\<open>unverified\<close> answer leaves the state LoggedIn as well.
  The sibling branch for state Verified does drop a closed transport to Disconnected.
  The same happens in state Connected, which is the state the logon sequence of
  \<^verbatim>\<open>setup()\<close> leaves behind when the server stays silent.
\<close>

theorem C1_failed_verification_keeps_state:
  "aprsState ((exampleWorld True [] APRS_LOGGED_IN)\<lparr>connectOk := True\<rparr>) = APRS_LOGGED_IN
   \<and> verifyLogonStatus ((exampleWorld True [] APRS_LOGGED_IN)\<lparr>connectOk := True\<rparr>)
       = Some (False, (exampleWorld False [] APRS_LOGGED_IN)\<lparr>connectOk := True, clock := 2001\<rparr>)
   \<and> updateAPRS ((exampleWorld True [] APRS_LOGGED_IN)\<lparr>connectOk := True\<rparr>)
       = Some ((exampleWorld False [] APRS_LOGGED_IN)\<lparr>connectOk := True, clock := 2001\<rparr>)
   \<and> updateAPRS ((exampleWorld False [] APRS_LOGGED_IN)\<lparr>connectOk := True, clock := 2001\<rparr>)
       = Some ((exampleWorld False [] APRS_LOGGED_IN)\<lparr>connectOk := True, clock := 4001\<rparr>)
   \<and> updateAPRS ((exampleWorld False [] APRS_LOGGED_IN)\<lparr>connectOk := True, clock := 4001\<rparr>)
       = Some ((exampleWorld False [] APRS_LOGGED_IN)\<lparr>connectOk := True, clock := 6001\<rparr>)
   \<and> verifyLogonStatus
         (exampleWorld True (''# logresp CALL-2 unverified, server T2'' @ [LF]) APRS_LOGGED_IN)
       = Some (False, exampleWorld True [] APRS_LOGGED_IN)
   \<and> updateAPRS
         (exampleWorld True (''# logresp CALL-2 unverified, server T2'' @ [LF]) APRS_LOGGED_IN)
       = Some (exampleWorld True [] APRS_LOGGED_IN)
   \<and> updateAPRS ((exampleWorld False [] APRS_VERIFIED)\<lparr>connectOk := True\<rparr>)
       = Some ((exampleWorld False [] APRS_DISCONNECTED)\<lparr>connectOk := True\<rparr>)
   \<and> connectToAPRSserver exampleCredentials
         ((exampleWorld False [] APRS_DISCONNECTED)\<lparr>connectOk := True\<rparr>)
       = Some ((exampleWorld False [] APRS_CONNECTED)
                 \<lparr>connectOk := True, clock := 2001,
                  sent := [''user CALL-2 pass 9092 ver ID VERSION filter b/CALL-2*'']\<rparr>)
   \<and> updateAPRS ((exampleWorld False [] APRS_CONNECTED)
                    \<lparr>connectOk := True, clock := 2001,
                     sent := [''user CALL-2 pass 9092 ver ID VERSION filter b/CALL-2*'']\<rparr>)
       = Some ((exampleWorld False [] APRS_CONNECTED)
                 \<lparr>connectOk := True, clock := 4001,
                  sent := [''user CALL-2 pass 9092 ver ID VERSION filter b/CALL-2*'']\<rparr>)"
  by code_simp

subsection \<open>Reader idle timeout inside the verification window\<close>









end
